theory Spec2Isabelle
  imports Main
begin

section \<open>Data model\<close>

text \<open>
  The case/message service layer of the backend (\<^verbatim>\<open>CaseService\<close>, \<^verbatim>\<open>MessageService\<close>,
  the two repositories and the Mongoose models \<^verbatim>\<open>Case\<close> and \<^verbatim>\<open>Message\<close>).
  An ObjectId is a natural number, a date is a millisecond timestamp, a nullable path
  is an \<open>option\<close> (\<open>None\<close> for JavaScript's \<^verbatim>\<open>null\<close>/\<^verbatim>\<open>undefined\<close>), and the string
  enums of the schemas stay strings, as the services compare them with \<^verbatim>\<open>===\<close>.
  A string is the list of the bytes of its UTF-8 encoding.
\<close>

type_synonym oid = nat
type_synonym date = nat

text \<open>Failures of the services: the 404 and 403 errors they construct themselves, the
  validation error of a Mongoose write, the TypeError of a property read on
  \<^verbatim>\<open>null\<close>/\<^verbatim>\<open>undefined\<close>, and an error of the store itself, which the services
  rethrow unchanged.\<close>

datatype error = NotFound | Forbidden | ValidationError | TypeError | StoreError

text \<open>The caller-supplied user context \<^verbatim>\<open>{id, role, panelistId?, name}\<close>.\<close>

record user =
  user_id :: oid
  user_role :: string
  user_panelistId :: "oid option"
  user_name :: string

text \<open>An element of \<^verbatim>\<open>Case.assignedPanelists\<close>.\<close>

record assignment =
  ap_panelist :: oid
  ap_assignedAt :: date
  ap_assignedBy :: oid
  ap_status :: string

text \<open>Elements of \<^verbatim>\<open>Case.parties\<close> and \<^verbatim>\<open>Case.notes\<close>.\<close>

record party =
  party_name :: string
  party_contact :: string
  party_role :: string

record case_note =
  note_content :: string
  note_createdByType :: string
  note_noteType :: string

text \<open>
  A stored Case document, with every path of the schema that carries a validator and
  every path the services read or write. \<open>case_assignedPanelists\<close> is \<open>None\<close> when the
  raw stored document has no such path: a lean read then yields \<^verbatim>\<open>undefined\<close>, while a
  hydrated Mongoose document yields the empty array (see \<open>hydrate\<close>).
\<close>

record case_doc =
  case_id :: oid
  case_title :: string
  case_description :: string
  case_type :: string
  case_status :: string
  case_priority :: string
  case_createdBy :: oid
  case_assignedTo :: "oid option"
  case_assignedAt :: "date option"
  case_assignedPanelists :: "assignment list option"
  case_panelAssignedAt :: "date option"
  case_parties :: "party list"
  case_notes :: "case_note list"
  case_resolutionStatus :: string
  case_createdAt :: date
  case_updatedAt :: date

section \<open>Authorization guard\<close>

text \<open>
  \<^verbatim>\<open>assignedPanelists.some((ap) => ap.panelist.toString() === user.panelistId.toString()
       && ap.status === 'active')\<close>:
  the callback runs once per element, left to right, until it returns true. Each run
  reads \<^verbatim>\<open>user.panelistId.toString()\<close>, a TypeError when the context carries no
  panelist id; on the empty array the callback never runs.
\<close>

fun some_active :: "assignment list \<Rightarrow> oid option \<Rightarrow> error + bool" where
  "some_active [] panelistId = Inr False"
| "some_active (ap # aps) panelistId =
     (case panelistId of
        None \<Rightarrow> Inl TypeError
      | Some p \<Rightarrow>
          if ap_panelist ap = p \<and> ap_status ap = ''active'' then Inr True
          else some_active aps panelistId)"

text \<open>
  \<^verbatim>\<open>CaseService._checkCaseAccess(caseData, user)\<close>: three consecutive \<^verbatim>\<open>if\<close>s on the
  role, each throwing the 403 error on failure, then \<^verbatim>\<open>return true\<close>.
  \<^verbatim>\<open>caseData.assignedPanelists.some\<close> is unguarded: a TypeError on a missing array.
\<close>

definition CaseService_checkCaseAccess :: "case_doc \<Rightarrow> user \<Rightarrow> error + bool" where
  "CaseService_checkCaseAccess caseData user =
     (if user_role user = ''admin'' then Inr True
      else if user_role user = ''client'' \<and> case_createdBy caseData \<noteq> user_id user
        then Inl Forbidden
      else if user_role user = ''panelist'' then
        (case case_assignedPanelists caseData of
           None \<Rightarrow> Inl TypeError
         | Some aps \<Rightarrow>
             (case some_active aps (user_panelistId user) of
                Inl e \<Rightarrow> Inl e
              | Inr isPanelist \<Rightarrow> if \<not> isPanelist then Inl Forbidden else Inr True))
      else Inr True)"

text \<open>
  \<^verbatim>\<open>MessageService._checkCaseAccess(caseData, user)\<close>: the same, except for the optional
  chaining \<^verbatim>\<open>caseData.assignedPanelists?.some(...)\<close>, which gives \<^verbatim>\<open>undefined\<close> (so
  \<^verbatim>\<open>!isPanelist\<close> holds) on a missing array.
\<close>

definition MessageService_checkCaseAccess :: "case_doc \<Rightarrow> user \<Rightarrow> error + bool" where
  "MessageService_checkCaseAccess caseData user =
     (if user_role user = ''admin'' then Inr True
      else if user_role user = ''client'' \<and> case_createdBy caseData \<noteq> user_id user
        then Inl Forbidden
      else if user_role user = ''panelist'' then
        (case case_assignedPanelists caseData of
           None \<Rightarrow> Inl Forbidden
         | Some aps \<Rightarrow>
             (case some_active aps (user_panelistId user) of
                Inl e \<Rightarrow> Inl e
              | Inr isPanelist \<Rightarrow> if \<not> isPanelist then Inl Forbidden else Inr True))
      else Inr True)"

section \<open>Case repository\<close>

text \<open>
  The Case collection is the list of its stored documents; \<^verbatim>\<open>_id\<close> is unique in a
  collection. A hydrated Mongoose document always carries its array paths, a lean
  read returns the stored document as it is.
\<close>

definition hydrate :: "case_doc \<Rightarrow> case_doc" where
  "hydrate c =
     c\<lparr>case_assignedPanelists :=
         Some (case case_assignedPanelists c of None \<Rightarrow> [] | Some aps \<Rightarrow> aps)\<rparr>"

text \<open>\<^verbatim>\<open>CaseRepository.findById(id, lean)\<close>.\<close>

definition CaseRepository_findById :: "case_doc list \<Rightarrow> oid \<Rightarrow> bool \<Rightarrow> case_doc option" where
  "CaseRepository_findById cases i lean =
     (case find (\<lambda>c. case_id c = i) cases of
        None \<Rightarrow> None
      | Some c \<Rightarrow> if lean then Some c else Some (hydrate c))"

text \<open>The enums of the Case schema.\<close>

definition Case_status_enum :: "string list" where
  "Case_status_enum =
     [''open'', ''assigned'', ''panel_assigned'', ''in_progress'', ''resolved'', ''closed'']"

definition Case_priority_enum :: "string list" where
  "Case_priority_enum = [''low'', ''medium'', ''high'', ''urgent'']"

definition Assignment_status_enum :: "string list" where
  "Assignment_status_enum = [''active'', ''removed'', ''completed'']"






text \<open>
  A query filter as \<^verbatim>\<open>listCases\<close> builds it: each key is absent (\<open>None\<close>) or carries
  its value. The value of \<^verbatim>\<open>'assignedPanelists.panelist'\<close> is \<^verbatim>\<open>user.panelistId\<close>, which
  may itself be undefined (\<open>Some None\<close>).
\<close>

record case_filter =
  f_createdBy :: "oid option"
  f_ap_panelist :: "oid option option"
  f_ap_status :: "string option"
  f_status :: "string option"
  f_type :: "string option"

definition aps_of :: "case_doc \<Rightarrow> assignment list" where
  "aps_of c = (case case_assignedPanelists c of None \<Rightarrow> [] | Some aps \<Rightarrow> aps)"

text \<open>
  The document store's matching of a filter. All keys must hold. A dotted path into an
  array of subdocuments (\<^verbatim>\<open>'assignedPanelists.panelist'\<close>, \<^verbatim>\<open>'assignedPanelists.status'\<close>)
  holds when \<^emph>\<open>some\<close> element has that value; two such keys are evaluated independently
  of each other, so different elements may satisfy them (only \<^verbatim>\<open>$elemMatch\<close>, which the
  source does not use, ties them to one element). An undefined value is sent as null,
  which no element's (required) \<^verbatim>\<open>panelist\<close> equals.
\<close>

definition matches :: "case_filter \<Rightarrow> case_doc \<Rightarrow> bool" where
  "matches f c =
     ((case f_createdBy f of None \<Rightarrow> True | Some i \<Rightarrow> case_createdBy c = i) \<and>
      (case f_ap_panelist f of None \<Rightarrow> True
       | Some v \<Rightarrow> list_ex (\<lambda>ap. Some (ap_panelist ap) = v) (aps_of c)) \<and>
      (case f_ap_status f of None \<Rightarrow> True
       | Some s \<Rightarrow> list_ex (\<lambda>ap. ap_status ap = s) (aps_of c)) \<and>
      (case f_status f of None \<Rightarrow> True | Some s \<Rightarrow> case_status c = s) \<and>
      (case f_type f of None \<Rightarrow> True | Some t \<Rightarrow> case_type c = t))"

text \<open>
  \<^verbatim>\<open>.sort(sort).skip((page - 1) * limit).limit(limit)\<close>. The sort path is given as the
  function reading it; direction 1 is ascending, anything else descending. The store
  rejects a negative skip (page 0 with a positive limit) and reads limit 0 as no limit.
\<close>

definition paginate :: "nat \<Rightarrow> nat \<Rightarrow> 'a list \<Rightarrow> error + 'a list" where
  "paginate page limit xs =
     (if page = 0 \<and> 0 < limit then Inl StoreError
      else let skipped = drop ((page - 1) * limit) xs
           in Inr (if limit = 0 then skipped else take limit skipped))"

definition sorted_by :: "('a \<Rightarrow> nat) \<Rightarrow> bool \<Rightarrow> 'a list \<Rightarrow> 'a list" where
  "sorted_by key asc xs = (if asc then sort_key key xs else rev (sort_key key xs))"

text \<open>\<^verbatim>\<open>CaseRepository.findCasesWithPopulation\<close> (the population of the references to
  display records is not modelled) and \<^verbatim>\<open>CaseRepository.countCases\<close>.\<close>

definition findCasesWithPopulation ::
  "case_doc list \<Rightarrow> case_filter \<Rightarrow> nat \<Rightarrow> nat \<Rightarrow> (case_doc \<Rightarrow> nat) \<Rightarrow> bool
     \<Rightarrow> error + case_doc list" where
  "findCasesWithPopulation cases f page limit key asc =
     paginate page limit (sorted_by key asc (filter (matches f) cases))"

definition countCases :: "case_doc list \<Rightarrow> case_filter \<Rightarrow> nat" where
  "countCases cases f = length (filter (matches f) cases)"

text \<open>\<^verbatim>\<open>CaseRepository.findByPanelist(panelistId, page, limit)\<close>: the same two dotted keys,
  sorted by \<^verbatim>\<open>createdAt\<close> descending.\<close>

definition findByPanelist ::
  "case_doc list \<Rightarrow> oid \<Rightarrow> nat \<Rightarrow> nat \<Rightarrow> error + case_doc list" where
  "findByPanelist cases panelistId page limit =
     paginate page limit
       (sorted_by case_createdAt False
          (filter (matches \<lparr>f_createdBy = None, f_ap_panelist = Some (Some panelistId),
                            f_ap_status = Some ''active'', f_status = None, f_type = None\<rparr>)
             cases))"

section \<open>Case lifecycle service\<close>

subsection \<open>listCases\<close>

text \<open>
  The role-based keys, then the explicit ones (\<^verbatim>\<open>if (status) filter.status = status\<close>: an
  empty string is falsy and adds no key).
\<close>

definition truthy_str :: "string option \<Rightarrow> string option" where
  "truthy_str v = (case v of None \<Rightarrow> None | Some s \<Rightarrow> if s = [] then None else Some s)"

definition listCases_filter :: "user \<Rightarrow> string option \<Rightarrow> string option \<Rightarrow> case_filter" where
  "listCases_filter user status type =
     \<lparr>f_createdBy = (if user_role user = ''client'' then Some (user_id user) else None),
      f_ap_panelist =
        (if user_role user = ''client'' then None
         else if user_role user = ''panelist'' then Some (user_panelistId user) else None),
      f_ap_status =
        (if user_role user = ''client'' then None
         else if user_role user = ''panelist'' then Some ''active'' else None),
      f_status = truthy_str status,
      f_type = truthy_str type\<rparr>"

record list_result =
  lr_cases :: "case_doc list"
  lr_total :: nat
  lr_page :: nat
  lr_limit :: nat
  lr_pages :: "nat option"

text \<open>\<^verbatim>\<open>Math.ceil(total / limit)\<close>; with limit 0 the quotient is no integer (\<open>None\<close>).\<close>

definition page_count :: "nat \<Rightarrow> nat \<Rightarrow> nat option" where
  "page_count n limit = (if limit = 0 then None else Some ((n + limit - 1) div limit))"

definition listCases ::
  "case_doc list \<Rightarrow> user \<Rightarrow> nat \<Rightarrow> nat \<Rightarrow> string option \<Rightarrow> string option
     \<Rightarrow> (case_doc \<Rightarrow> nat) \<Rightarrow> string \<Rightarrow> error + list_result" where
  "listCases cases user page limit status type sortBy sortOrder =
     (let f = listCases_filter user status type in
      case findCasesWithPopulation cases f page limit sortBy (sortOrder = ''asc'') of
        Inl e \<Rightarrow> Inl e
      | Inr found \<Rightarrow>
          let n = countCases cases f in
          Inr \<lparr>lr_cases = found, lr_total = n, lr_page = page, lr_limit = limit,
               lr_pages = page_count n limit\<rparr>)"

subsection \<open>updateCase\<close>

text \<open>
  The \<^verbatim>\<open>trim\<close> setter of a String path is \<^verbatim>\<open>String.prototype.trim\<close>: the white space
  and line terminator characters of the language are stripped at both ends. These
  are their UTF-8 encodings: U+0009 to U+000D, U+0020, U+00A0, U+1680, U+2000 to
  U+200A, U+2028, U+2029, U+202F, U+205F, U+3000 and U+FEFF.
\<close>

definition ws_encodings :: "string list" where
  "ws_encodings =
     [[CHR 0x09], [CHR 0x0A], [CHR 0x0B], [CHR 0x0C], [CHR 0x0D], [CHR 0x20],
      [CHR 0xC2, CHR 0xA0], [CHR 0xE1, CHR 0x9A, CHR 0x80],
      [CHR 0xE2, CHR 0x80, CHR 0x80], [CHR 0xE2, CHR 0x80, CHR 0x81],
      [CHR 0xE2, CHR 0x80, CHR 0x82], [CHR 0xE2, CHR 0x80, CHR 0x83],
      [CHR 0xE2, CHR 0x80, CHR 0x84], [CHR 0xE2, CHR 0x80, CHR 0x85],
      [CHR 0xE2, CHR 0x80, CHR 0x86], [CHR 0xE2, CHR 0x80, CHR 0x87],
      [CHR 0xE2, CHR 0x80, CHR 0x88], [CHR 0xE2, CHR 0x80, CHR 0x89],
      [CHR 0xE2, CHR 0x80, CHR 0x8A], [CHR 0xE2, CHR 0x80, CHR 0xA8],
      [CHR 0xE2, CHR 0x80, CHR 0xA9], [CHR 0xE2, CHR 0x80, CHR 0xAF],
      [CHR 0xE2, CHR 0x81, CHR 0x9F], [CHR 0xE3, CHR 0x80, CHR 0x80],
      [CHR 0xEF, CHR 0xBB, CHR 0xBF]]"

text \<open>\<open>strip ws s\<close> removes from the front of \<open>s\<close> every leading occurrence of one of the
  non-empty byte sequences \<open>ws\<close>.\<close>

function strip :: "string list \<Rightarrow> string \<Rightarrow> string" where
  "strip ws s =
     (case find (\<lambda>w. w \<noteq> [] \<and> take (length w) s = w) ws of
        None \<Rightarrow> s
      | Some w \<Rightarrow> strip ws (drop (length w) s))"
  by pat_completeness auto
termination
proof (relation "measure (\<lambda>(ws, s). length s)")
  show "wf (measure (\<lambda>(ws, s). length s))" by simp
next
  fix ws :: "string list" and s w :: string
  assume "find (\<lambda>w. w \<noteq> [] \<and> take (length w) s = w) ws = Some w"
  then have w: "w \<noteq> []" and t: "take (length w) s = w"
    by (auto simp: find_Some_iff)
  from t have "length (take (length w) s) = length w" by simp
  then have "length w \<le> length s" by simp
  with w show "((ws, drop (length w) s), (ws, s)) \<in> measure (\<lambda>(ws, s). length s)"
    by (cases w) auto
qed

declare strip.simps [simp del]

definition js_trim :: "string \<Rightarrow> string" where
  "js_trim s = rev (strip (map rev ws_encodings) (rev (strip ws_encodings s)))"

text \<open>
  \<^verbatim>\<open>String.prototype.length\<close>, which the \<^verbatim>\<open>maxlength\<close> validator reads, counts UTF-16 code
  units: one per encoded character, two for a character of four bytes; a continuation
  byte counts nothing.
\<close>

definition utf16_units :: "char \<Rightarrow> nat" where
  "utf16_units c =
     (let b = (of_char c :: nat)
      in if 0x80 \<le> b \<and> b < 0xC0 then 0 else if 0xF0 \<le> b then 2 else 1)"

definition js_length :: "string \<Rightarrow> nat" where
  "js_length s = sum_list (map utf16_units s)"

text \<open>
  The update payload: a key is absent (\<open>None\<close>) or present with a value of its schema
  type. \<^verbatim>\<open>assignedTo\<close> is a nullable reference, so a present key may carry null
  (\<open>Some None\<close>).
\<close>

record case_patch =
  p_title :: "string option"
  p_status :: "string option"
  p_assignedTo :: "oid option option"
  p_assignedPanelists :: "assignment list option"
  p_priority :: "string option"

text \<open>
  \<^verbatim>\<open>restrictedFields.forEach((field) => { if (updateData[field]) delete updateData[field]; })\<close>.
  The test is on the \<^emph>\<open>value\<close>: a key is deleted when its value is truthy. The empty string
  and null are falsy, so such a key stays in the payload; an id, a non-empty string and
  an array (also the empty one) are truthy.
\<close>

definition strip_restricted :: "case_patch \<Rightarrow> case_patch" where
  "strip_restricted updateData =
     updateData
       \<lparr>p_status := (case p_status updateData of
                       None \<Rightarrow> None | Some s \<Rightarrow> if s \<noteq> [] then None else Some s),
        p_assignedTo := (case p_assignedTo updateData of
                           None \<Rightarrow> None | Some None \<Rightarrow> Some None | Some (Some a) \<Rightarrow> None),
        p_assignedPanelists := None,
        p_priority := (case p_priority updateData of
                         None \<Rightarrow> None | Some s \<Rightarrow> if s \<noteq> [] then None else Some s)\<rparr>"

text \<open>
  \<^verbatim>\<open>CaseRepository.updateById\<close>: \<^verbatim>\<open>findByIdAndUpdate(id, updateData, {new: true,
  runValidators: true})\<close>. The validators of the paths that are set run first (required
  title after trimming, the enums); then every present key is set. No save hook runs,
  so \<^verbatim>\<open>updatedAt\<close> stays. The result is the updated document, or null when there is none.
\<close>

definition patch_valid :: "case_patch \<Rightarrow> bool" where
  "patch_valid updateData =
     ((case p_title updateData of None \<Rightarrow> True | Some t \<Rightarrow> js_trim t \<noteq> []) \<and>
      (case p_status updateData of None \<Rightarrow> True | Some s \<Rightarrow> s \<in> set Case_status_enum) \<and>
      (case p_assignedPanelists updateData of
         None \<Rightarrow> True
       | Some aps \<Rightarrow> list_all (\<lambda>ap. ap_status ap \<in> set Assignment_status_enum) aps) \<and>
      (case p_priority updateData of None \<Rightarrow> True | Some s \<Rightarrow> s \<in> set Case_priority_enum))"

definition apply_patch :: "case_patch \<Rightarrow> case_doc \<Rightarrow> case_doc" where
  "apply_patch updateData c =
     c\<lparr>case_title := (case p_title updateData of None \<Rightarrow> case_title c | Some t \<Rightarrow> js_trim t),
       case_status := (case p_status updateData of None \<Rightarrow> case_status c | Some s \<Rightarrow> s),
       case_assignedTo :=
         (case p_assignedTo updateData of None \<Rightarrow> case_assignedTo c | Some a \<Rightarrow> a),
       case_assignedPanelists :=
         (case p_assignedPanelists updateData of
            None \<Rightarrow> case_assignedPanelists c | Some aps \<Rightarrow> Some aps),
       case_priority :=
         (case p_priority updateData of None \<Rightarrow> case_priority c | Some s \<Rightarrow> s)\<rparr>"

definition CaseRepository_updateById ::
  "case_doc list \<Rightarrow> oid \<Rightarrow> case_patch \<Rightarrow> error + (case_doc list \<times> case_doc option)" where
  "CaseRepository_updateById cases i updateData =
     (if \<not> patch_valid updateData then Inl ValidationError
      else case find (\<lambda>c. case_id c = i) cases of
        None \<Rightarrow> Inr (cases, None)
      | Some c \<Rightarrow>
          Inr (map (\<lambda>d. if case_id d = i then apply_patch updateData d else d) cases,
               Some (hydrate (apply_patch updateData c))))"

text \<open>
  \<^verbatim>\<open>CaseService.updateCase(caseId, updateData, user)\<close>: load (404 when absent), check
  access, strip the restricted keys for a non-admin, persist. The result is the new
  collection and the updated document.
\<close>

definition updateCase ::
  "case_doc list \<Rightarrow> oid \<Rightarrow> case_patch \<Rightarrow> user \<Rightarrow> error + (case_doc list \<times> case_doc option)" where
  "updateCase cases caseId updateData user =
     (case CaseRepository_findById cases caseId False of
        None \<Rightarrow> Inl NotFound
      | Some existingCase \<Rightarrow>
          (case CaseService_checkCaseAccess existingCase user of
             Inl e \<Rightarrow> Inl e
           | Inr ok \<Rightarrow>
               CaseRepository_updateById cases caseId
                 (if user_role user \<noteq> ''admin'' then strip_restricted updateData
                  else updateData)))"

subsection \<open>assignPanelists\<close>




section \<open>Message model and repository\<close>

record sender =
  sender_userType :: string
  sender_userId :: oid
  sender_panelistId :: "oid option"
  sender_name :: string

record recipient =
  rcp_recipientType :: string
  rcp_userId :: "oid option"
  rcp_panelistId :: "oid option"
  rcp_name :: string
  rcp_isRead :: bool
  rcp_readAt :: "date option"

record message_doc =
  msg_id :: oid
  msg_case :: oid
  msg_sender :: sender
  msg_recipients :: "recipient list"
  msg_subject :: "string option"
  msg_content :: string
  msg_messageType :: string
  msg_priority :: string
  msg_isDeleted :: bool
  msg_createdAt :: date
  msg_updatedAt :: date

text \<open>The enums of the Message schema.\<close>

definition Sender_userType_enum :: "string list" where
  "Sender_userType_enum = [''admin'', ''panelist'', ''client'']"

definition Recipient_type_enum :: "string list" where
  "Recipient_type_enum = [''party'', ''panelist'', ''admin'', ''all_parties'']"

definition Message_type_enum :: "string list" where
  "Message_type_enum =
     [''general'', ''meeting_notification'', ''case_update'', ''resolution_request'']"

definition Message_priority_enum :: "string list" where
  "Message_priority_enum = [''low'', ''normal'', ''high'', ''urgent'']"

text \<open>\<^verbatim>\<open>MessageRepository.findById\<close>.\<close>

definition MessageRepository_findById :: "message_doc list \<Rightarrow> oid \<Rightarrow> message_doc option" where
  "MessageRepository_findById msgs i = find (\<lambda>m. msg_id m = i) msgs"

text \<open>
  The validation of a whole Message document, as \<^verbatim>\<open>create\<close> and \<^verbatim>\<open>save()\<close> run it:
  required paths, enums and the length bounds of the schema (a missing required
  string is the empty string here).
\<close>

definition Message_valid :: "message_doc \<Rightarrow> bool" where
  "Message_valid m =
     (sender_userType (msg_sender m) \<in> set Sender_userType_enum \<and>
      sender_name (msg_sender m) \<noteq> [] \<and>
      list_all (\<lambda>r. rcp_recipientType r \<in> set Recipient_type_enum \<and> rcp_name r \<noteq> [])
        (msg_recipients m) \<and>
      (case msg_subject m of None \<Rightarrow> True | Some s \<Rightarrow> js_length s \<le> 200) \<and>
      msg_content m \<noteq> [] \<and> js_length (msg_content m) \<le> 5000 \<and>
      msg_messageType m \<in> set Message_type_enum \<and>
      msg_priority m \<in> set Message_priority_enum)"

text \<open>
  The payload of \<^verbatim>\<open>createMessage\<close>. It may carry a \<^verbatim>\<open>sender\<close> of its own; the recipients
  are stored as the caller gives them.
\<close>

record message_data =
  md_case :: oid
  md_sender :: "sender option"
  md_recipients :: "recipient list"
  md_subject :: "string option"
  md_content :: string
  md_messageType :: "string option"
  md_priority :: "string option"

text \<open>
  \<^verbatim>\<open>MessageRepository.create\<close> (\<^verbatim>\<open>Message.create\<close>): schema defaults, the \<^verbatim>\<open>trim\<close> setters,
  validation, the save hook, insertion under the fresh id \<open>newId\<close> the store generates.
\<close>

definition MessageRepository_create ::
  "message_doc list \<Rightarrow> message_data \<Rightarrow> sender \<Rightarrow> oid \<Rightarrow> date
     \<Rightarrow> error + (message_doc list \<times> message_doc)" where
  "MessageRepository_create msgs messageData sndr newId now =
     (let m = \<lparr>msg_id = newId,
                msg_case = md_case messageData,
                msg_sender = sndr,
                msg_recipients = md_recipients messageData,
                msg_subject = map_option js_trim (md_subject messageData),
                msg_content = js_trim (md_content messageData),
                msg_messageType =
                  (case md_messageType messageData of None \<Rightarrow> ''general'' | Some t \<Rightarrow> t),
                msg_priority =
                  (case md_priority messageData of None \<Rightarrow> ''normal'' | Some p \<Rightarrow> p),
                msg_isDeleted = False,
                msg_createdAt = now,
                msg_updatedAt = now\<rparr>
      in if \<not> Message_valid m then Inl ValidationError else Inr (msgs @ [m], m))"

text \<open>
  \<^verbatim>\<open>MessageSchema.methods.markAsRead(userId)\<close>: \<^verbatim>\<open>recipients.find\<close> yields the first entry
  whose \<^verbatim>\<open>userId\<close> is set and equals the given one; that entry is mutated in place when
  it is unread. \<open>mark_first\<close> is that search and mutation in one pass.
  Then \<^verbatim>\<open>this.save()\<close> runs in every case: the whole document is validated, and a
  document that fails is not stored (the validation error is thrown); otherwise the
  save hook \<^verbatim>\<open>this.updatedAt = Date.now()\<close> runs and the document replaces the stored
  one of its \<^verbatim>\<open>_id\<close>.
\<close>

fun mark_first :: "recipient list \<Rightarrow> oid \<Rightarrow> date \<Rightarrow> recipient list" where
  "mark_first [] userId now = []"
| "mark_first (r # rs) userId now =
     (if rcp_userId r = Some userId
      then (if \<not> rcp_isRead r then r\<lparr>rcp_isRead := True, rcp_readAt := Some now\<rparr> else r) # rs
      else r # mark_first rs userId now)"

definition Message_save ::
  "message_doc list \<Rightarrow> message_doc \<Rightarrow> date \<Rightarrow> error + (message_doc list \<times> message_doc)" where
  "Message_save msgs m now =
     (if \<not> Message_valid m then Inl ValidationError
      else let m' = m\<lparr>msg_updatedAt := now\<rparr>
           in Inr (map (\<lambda>d. if msg_id d = msg_id m then m' else d) msgs, m'))"

definition Message_markAsRead ::
  "message_doc list \<Rightarrow> message_doc \<Rightarrow> oid \<Rightarrow> date
     \<Rightarrow> error + (message_doc list \<times> message_doc)" where
  "Message_markAsRead msgs m userId now =
     Message_save msgs (m\<lparr>msg_recipients := mark_first (msg_recipients m) userId now\<rparr>) now"

text \<open>\<^verbatim>\<open>MessageRepository.markAsRead(messageId, userId)\<close>: null when there is no such
  message; an error of the save is thrown on.\<close>

definition MessageRepository_markAsRead ::
  "message_doc list \<Rightarrow> oid \<Rightarrow> oid \<Rightarrow> date
     \<Rightarrow> error + (message_doc list \<times> message_doc option)" where
  "MessageRepository_markAsRead msgs messageId userId now =
     (case MessageRepository_findById msgs messageId of
        None \<Rightarrow> Inr (msgs, None)
      | Some message \<Rightarrow>
          (case Message_markAsRead msgs message userId now of
             Inl e \<Rightarrow> Inl e
           | Inr (msgs', message') \<Rightarrow> Inr (msgs', Some message')))"

text \<open>
  The unread query \<^verbatim>\<open>{'recipients.userId': userId, 'recipients.isRead': false,
  isDeleted: false}\<close> of \<^verbatim>\<open>getUnreadCount\<close> and \<^verbatim>\<open>findUnreadByUser\<close>: two dotted keys into
  the recipients array, each holding when some element satisfies it.
\<close>

definition is_recipient :: "oid \<Rightarrow> message_doc \<Rightarrow> bool" where
  "is_recipient userId m = list_ex (\<lambda>r. rcp_userId r = Some userId) (msg_recipients m)"

definition unread_query :: "oid \<Rightarrow> message_doc \<Rightarrow> bool" where
  "unread_query userId m =
     (is_recipient userId m \<and>
      list_ex (\<lambda>r. rcp_isRead r = False) (msg_recipients m) \<and>
      msg_isDeleted m = False)"

text \<open>\<^verbatim>\<open>MessageSchema.statics.getUnreadCount\<close>, which \<^verbatim>\<open>countUnreadByUser\<close> calls.\<close>

definition Message_getUnreadCount :: "message_doc list \<Rightarrow> oid \<Rightarrow> nat" where
  "Message_getUnreadCount msgs userId = length (filter (unread_query userId) msgs)"

text \<open>\<^verbatim>\<open>MessageRepository.findUnreadByUser\<close> (population not modelled): newest first.\<close>

definition findUnreadByUser ::
  "message_doc list \<Rightarrow> oid \<Rightarrow> nat \<Rightarrow> nat \<Rightarrow> error + message_doc list" where
  "findUnreadByUser msgs userId page limit =
     paginate page limit (sorted_by msg_createdAt False (filter (unread_query userId) msgs))"

text \<open>
  \<^verbatim>\<open>MessageRepository.bulkMarkAsRead\<close>: \<^verbatim>\<open>updateMany\<close> over the messages whose id is listed
  and that have the user among their recipients; in each, every element the array
  filter \<^verbatim>\<open>elem.userId = userId\<close> selects gets \<^verbatim>\<open>isRead = true\<close> and \<^verbatim>\<open>readAt = now\<close>.
  No save hook runs.
\<close>

definition bulkMarkAsRead :: "message_doc list \<Rightarrow> oid list \<Rightarrow> oid \<Rightarrow> date \<Rightarrow> message_doc list" where
  "bulkMarkAsRead msgs messageIds userId now =
     map (\<lambda>m. if msg_id m \<in> set messageIds \<and> is_recipient userId m
               then m\<lparr>msg_recipients :=
                        map (\<lambda>r. if rcp_userId r = Some userId
                                  then r\<lparr>rcp_isRead := True, rcp_readAt := Some now\<rparr> else r)
                          (msg_recipients m)\<rparr>
               else m)
       msgs"

text \<open>\<^verbatim>\<open>MessageRepository.deleteById\<close>: \<^verbatim>\<open>findByIdAndUpdate(id, {isDeleted: true},
  {new: true})\<close>, the soft delete.\<close>

definition MessageRepository_deleteById ::
  "message_doc list \<Rightarrow> oid \<Rightarrow> message_doc list \<times> message_doc option" where
  "MessageRepository_deleteById msgs i =
     (map (\<lambda>m. if msg_id m = i then m\<lparr>msg_isDeleted := True\<rparr> else m) msgs,
      map_option (\<lambda>m. m\<lparr>msg_isDeleted := True\<rparr>) (find (\<lambda>m. msg_id m = i) msgs))"

section \<open>Message delivery service\<close>

text \<open>
  \<^verbatim>\<open>MessageService.createMessage(messageData, sender)\<close>: the case must exist (404); the
  sender block is composed from the user context and replaces whatever the payload
  carries. No access check is made.
\<close>

definition createMessage ::
  "case_doc list \<Rightarrow> message_doc list \<Rightarrow> message_data \<Rightarrow> user \<Rightarrow> oid \<Rightarrow> date
     \<Rightarrow> error + (message_doc list \<times> message_doc)" where
  "createMessage cases msgs messageData sender newId now =
     (case CaseRepository_findById cases (md_case messageData) False of
        None \<Rightarrow> Inl NotFound
      | Some caseData \<Rightarrow>
          MessageRepository_create msgs messageData
            \<lparr>sender_userType = user_role sender,
             sender_userId = user_id sender,
             sender_panelistId = user_panelistId sender,
             sender_name = user_name sender\<rparr>
            newId now)"

text \<open>\<^verbatim>\<open>MessageService.markMessageAsRead(messageId, userId)\<close>: 404 on the repository's
  null; every error of the repository is rethrown.\<close>

definition markMessageAsRead ::
  "message_doc list \<Rightarrow> oid \<Rightarrow> oid \<Rightarrow> date \<Rightarrow> error + (message_doc list \<times> message_doc)" where
  "markMessageAsRead msgs messageId userId now =
     (case MessageRepository_markAsRead msgs messageId userId now of
        Inl e \<Rightarrow> Inl e
      | Inr (msgs', None) \<Rightarrow> Inl NotFound
      | Inr (msgs', Some message) \<Rightarrow> Inr (msgs', message))"

text \<open>\<^verbatim>\<open>MessageService.getUnreadCount(userId)\<close>.\<close>

definition getUnreadCount :: "message_doc list \<Rightarrow> oid \<Rightarrow> nat" where
  "getUnreadCount msgs userId = Message_getUnreadCount msgs userId"

text \<open>\<^verbatim>\<open>MessageService.getUnreadMessages(userId, page, limit)\<close>: the page and the count.\<close>

definition getUnreadMessages ::
  "message_doc list \<Rightarrow> oid \<Rightarrow> nat \<Rightarrow> nat \<Rightarrow> error + (message_doc list \<times> nat)" where
  "getUnreadMessages msgs userId page limit =
     (case findUnreadByUser msgs userId page limit of
        Inl e \<Rightarrow> Inl e
      | Inr messages \<Rightarrow> Inr (messages, Message_getUnreadCount msgs userId))"

text \<open>
  \<^verbatim>\<open>MessageService.deleteMessage(messageId, user)\<close>: 404 when absent, 403 unless the user
  is an admin or the sender, then the soft delete.
\<close>

definition deleteMessage ::
  "message_doc list \<Rightarrow> oid \<Rightarrow> user \<Rightarrow> error + (message_doc list \<times> message_doc option)" where
  "deleteMessage msgs messageId user =
     (case MessageRepository_findById msgs messageId of
        None \<Rightarrow> Inl NotFound
      | Some message \<Rightarrow>
          if user_role user \<noteq> ''admin'' \<and> sender_userId (msg_sender message) \<noteq> user_id user
          then Inl Forbidden
          else Inr (MessageRepository_deleteById msgs messageId))"

section \<open>Properties of recipients lists\<close>

text \<open>
  \<open>touches_only userId r r'\<close>: the entry \<open>r'\<close> is the entry \<open>r\<close> up to \<^verbatim>\<open>isRead\<close> and
  \<^verbatim>\<open>readAt\<close>, and is \<open>r\<close> itself unless \<open>r\<close> is addressed to \<open>userId\<close>.
\<close>

definition same_but_read_state :: "recipient \<Rightarrow> recipient \<Rightarrow> bool" where
  "same_but_read_state r r' = (r' = r\<lparr>rcp_isRead := rcp_isRead r', rcp_readAt := rcp_readAt r'\<rparr>)"

definition touches_only :: "oid \<Rightarrow> recipient \<Rightarrow> recipient \<Rightarrow> bool" where
  "touches_only userId r r' =
     (same_but_read_state r r' \<and> (rcp_userId r = Some userId \<or> r' = r))"

text \<open>Two collections hold the same messages, entry by entry, up to the read state of
  the recipients entries addressed to \<open>userId\<close>.\<close>

definition recipients_kept :: "oid \<Rightarrow> message_doc \<Rightarrow> message_doc \<Rightarrow> bool" where
  "recipients_kept userId m m' =
     (msg_id m' = msg_id m \<and> list_all2 (touches_only userId) (msg_recipients m) (msg_recipients m'))"

definition recipients_same :: "message_doc \<Rightarrow> message_doc \<Rightarrow> bool" where
  "recipients_same m m' = (msg_id m' = msg_id m \<and> msg_recipients m' = msg_recipients m)"

text \<open>The stamp the save hook leaves on the stored message \<open>i\<close>.\<close>

definition restamp :: "oid \<Rightarrow> date \<Rightarrow> message_doc list \<Rightarrow> message_doc list" where
  "restamp i now msgs = map (\<lambda>m. if msg_id m = i then m\<lparr>msg_updatedAt := now\<rparr> else m) msgs"

section \<open>Example data\<close>

definition ex_admin :: user where
  "ex_admin = \<lparr>user_id = 7, user_role = ''admin'', user_panelistId = None, user_name = ''Ada''\<rparr>"

definition ex_owner :: user where
  "ex_owner = \<lparr>user_id = 1, user_role = ''client'', user_panelistId = None, user_name = ''Cleo''\<rparr>"

definition ex_outsider :: user where
  "ex_outsider =
     \<lparr>user_id = 2, user_role = ''client'', user_panelistId = None, user_name = ''Otto''\<rparr>"

definition ex_removed_panelist :: user where
  "ex_removed_panelist =
     \<lparr>user_id = 5, user_role = ''panelist'', user_panelistId = Some 11, user_name = ''Pia''\<rparr>"

definition ex_panelist_noid :: user where
  "ex_panelist_noid =
     \<lparr>user_id = 6, user_role = ''panelist'', user_panelistId = None, user_name = ''Pol''\<rparr>"

definition ex_guest :: user where
  "ex_guest = \<lparr>user_id = 9, user_role = ''guest'', user_panelistId = None, user_name = ''Gus''\<rparr>"

text \<open>A case of client 1, assigned to admin 7; panelist 11 was removed from it, panelist
  12 is active on it.\<close>

definition ex_case :: case_doc where
  "ex_case =
     \<lparr>case_id = 1, case_title = ''Boundary wall'',
      case_description = ''Dispute over a shared wall'', case_type = ''land'',
      case_status = ''panel_assigned'', case_priority = ''medium'', case_createdBy = 1,
      case_assignedTo = Some 7, case_assignedAt = Some 50,
      case_assignedPanelists =
        Some [\<lparr>ap_panelist = 11, ap_assignedAt = 60, ap_assignedBy = 7, ap_status = ''removed''\<rparr>,
              \<lparr>ap_panelist = 12, ap_assignedAt = 60, ap_assignedBy = 7, ap_status = ''active''\<rparr>],
      case_panelAssignedAt = Some 60,
      case_parties = [\<lparr>party_name = ''Cleo'', party_contact = ''cleo@example.org'',
                       party_role = ''claimant''\<rparr>],
      case_notes = [\<lparr>note_content = ''Panel formed'', note_createdByType = ''admin'',
                     note_noteType = ''progress''\<rparr>],
      case_resolutionStatus = ''not_started'', case_createdAt = 40, case_updatedAt = 60\<rparr>"



text \<open>A case of client 1 with no panel yet.\<close>

definition ex_case_nopanel :: case_doc where
  "ex_case_nopanel =
     \<lparr>case_id = 2, case_title = ''Inheritance'',
      case_description = ''Division of an estate'', case_type = ''family'',
      case_status = ''assigned'', case_priority = ''medium'', case_createdBy = 1,
      case_assignedTo = Some 7, case_assignedAt = Some 50,
      case_assignedPanelists = Some [],
      case_panelAssignedAt = None, case_parties = [], case_notes = [],
      case_resolutionStatus = ''not_started'', case_createdAt = 45, case_updatedAt = 50\<rparr>"

definition ex_recipient :: "oid \<Rightarrow> bool \<Rightarrow> recipient" where
  "ex_recipient u isRead =
     \<lparr>rcp_recipientType = ''party'', rcp_userId = Some u, rcp_panelistId = None,
      rcp_name = ''Party'', rcp_isRead = isRead,
      rcp_readAt = (if isRead then Some 80 else None)\<rparr>"

text \<open>A message of client 1 on case 1 to the users 3 and 4, both unread.\<close>

definition ex_msg :: message_doc where
  "ex_msg =
     \<lparr>msg_id = 1, msg_case = 1,
      msg_sender = \<lparr>sender_userType = ''client'', sender_userId = 1,
                    sender_panelistId = None, sender_name = ''Cleo''\<rparr>,
      msg_recipients = [ex_recipient 3 False, ex_recipient 4 False],
      msg_subject = None, msg_content = ''Hello'', msg_messageType = ''general'',
      msg_priority = ''normal'', msg_isDeleted = False, msg_createdAt = 70,
      msg_updatedAt = 70\<rparr>"

text \<open>A stored message whose type is not in the enum of the schema.\<close>

definition ex_msg_legacy :: message_doc where
  "ex_msg_legacy = ex_msg\<lparr>msg_id := 2, msg_messageType := ''announcement''\<rparr>"

definition ex_payload :: message_data where
  "ex_payload =
     \<lparr>md_case = 1, md_sender = None, md_recipients = [ex_recipient 3 False],
      md_subject = None, md_content = ''Let me in'', md_messageType = None,
      md_priority = None\<rparr>"

definition ex_patch_unassign :: case_patch where
  "ex_patch_unassign =
     \<lparr>p_title = None, p_status = None, p_assignedTo = Some None,
      p_assignedPanelists = None, p_priority = None\<rparr>"

section \<open>Lemmas on the helpers\<close>

text \<open>The \<^verbatim>\<open>some\<close> callback without a panelist id.\<close>

lemma some_active_no_id: "some_active aps None = (if aps = [] then Inr False else Inl TypeError)"
  by (cases aps) simp_all



lemma find_msg_id: "find (\<lambda>m. msg_id m = i) msgs = Some m \<Longrightarrow> msg_id m = i"
  by (induction msgs) (auto split: if_splits)

lemma find_msg_mem: "find (\<lambda>m. msg_id m = i) msgs = Some m \<Longrightarrow> m \<in> set msgs"
  by (induction msgs) (auto split: if_splits)

lemma findById_msg_id: "MessageRepository_findById msgs i = Some m \<Longrightarrow> msg_id m = i"
  unfolding MessageRepository_findById_def by (rule find_msg_id)

lemma findById_msg_mem: "MessageRepository_findById msgs i = Some m \<Longrightarrow> m \<in> set msgs"
  unfolding MessageRepository_findById_def by (rule find_msg_mem)

lemma find_replace_msg:
  "find (\<lambda>m. msg_id m = i) msgs = Some m \<Longrightarrow> msg_id d = i \<Longrightarrow>
   find (\<lambda>m. msg_id m = i) (map (\<lambda>m. if msg_id m = i then d else m) msgs) = Some d"
  by (induction msgs) (auto split: if_splits)

text \<open>The read mark of one user: a second mark changes nothing, and neither does a
  mark for a user the message is not addressed to.\<close>

lemma mark_first_idem: "mark_first (mark_first rs u t1) u t2 = mark_first rs u t1"
  by (induction rs) auto

lemma mark_first_absent:
  "\<not> list_ex (\<lambda>r. rcp_userId r = Some u) rs \<Longrightarrow> mark_first rs u now = rs"
  by (induction rs) auto

text \<open>The validators read neither the read state of a recipients entry nor
  \<^verbatim>\<open>updatedAt\<close>.\<close>

lemma list_all_mark_first:
  "list_all (\<lambda>r. rcp_recipientType r \<in> set Recipient_type_enum \<and> rcp_name r \<noteq> [])
     (mark_first rs u now) =
   list_all (\<lambda>r. rcp_recipientType r \<in> set Recipient_type_enum \<and> rcp_name r \<noteq> []) rs"
  by (induction rs) auto

lemma Message_valid_mark:
  "Message_valid (m\<lparr>msg_recipients := mark_first (msg_recipients m) u now\<rparr>) = Message_valid m"
  by (simp add: Message_valid_def list_all_mark_first)

lemma Message_valid_stamp:
  "Message_valid (m\<lparr>msg_recipients := rs, msg_updatedAt := t\<rparr>) =
   Message_valid (m\<lparr>msg_recipients := rs\<rparr>)"
  by (simp add: Message_valid_def)

text \<open>\<^verbatim>\<open>markMessageAsRead\<close> by cases on the lookup and on the validation.\<close>

lemma Message_markAsRead_eq:
  "Message_markAsRead msgs m u now =
    (if \<not> Message_valid m then Inl ValidationError
     else Inr (map (\<lambda>d. if msg_id d = msg_id m
                         then m\<lparr>msg_recipients := mark_first (msg_recipients m) u now,
                                msg_updatedAt := now\<rparr>
                         else d) msgs,
               m\<lparr>msg_recipients := mark_first (msg_recipients m) u now, msg_updatedAt := now\<rparr>))"
  by (simp add: Message_markAsRead_def Message_save_def Let_def Message_valid_mark)

lemma markMessageAsRead_found:
  assumes "MessageRepository_findById msgs mid = Some m" and "Message_valid m"
  shows "markMessageAsRead msgs mid u now =
           Inr (map (\<lambda>d. if msg_id d = mid
                          then m\<lparr>msg_recipients := mark_first (msg_recipients m) u now,
                                 msg_updatedAt := now\<rparr>
                          else d) msgs,
                m\<lparr>msg_recipients := mark_first (msg_recipients m) u now, msg_updatedAt := now\<rparr>)"
proof -
  have idm: "msg_id m = mid" using assms(1) by (rule findById_msg_id)
  have "MessageRepository_markAsRead msgs mid u now =
     (case Message_markAsRead msgs m u now of
        Inl e \<Rightarrow> Inl e
      | Inr (msgs', message') \<Rightarrow> Inr (msgs', Some message'))"
    using assms(1) by (simp add: MessageRepository_markAsRead_def)
  then show ?thesis
    unfolding markMessageAsRead_def Message_markAsRead_eq idm using assms(2) by simp
qed

lemma markMessageAsRead_invalid:
  assumes "MessageRepository_findById msgs mid = Some m" and "\<not> Message_valid m"
  shows "markMessageAsRead msgs mid u now = Inl ValidationError"
proof -
  have "MessageRepository_markAsRead msgs mid u now =
     (case Message_markAsRead msgs m u now of
        Inl e \<Rightarrow> Inl e
      | Inr (msgs', message') \<Rightarrow> Inr (msgs', Some message'))"
    using assms(1) by (simp add: MessageRepository_markAsRead_def)
  then show ?thesis
    unfolding markMessageAsRead_def Message_markAsRead_eq using assms(2) by simp
qed

lemma markMessageAsRead_absent:
  "MessageRepository_findById msgs mid = None \<Longrightarrow> markMessageAsRead msgs mid u now = Inl NotFound"
  by (simp add: markMessageAsRead_def MessageRepository_markAsRead_def)

lemma markMessageAsRead_Inr:
  assumes "markMessageAsRead msgs mid u now = Inr (msgs', m')"
  shows "\<exists>m. MessageRepository_findById msgs mid = Some m \<and> Message_valid m \<and>
    m' = m\<lparr>msg_recipients := mark_first (msg_recipients m) u now, msg_updatedAt := now\<rparr> \<and>
    msgs' = map (\<lambda>d. if msg_id d = mid then m' else d) msgs"
proof (cases "MessageRepository_findById msgs mid")
  case None
  from markMessageAsRead_absent [OF None, of u now] assms show ?thesis
    by simp
next
  case (Some m)
  show ?thesis
  proof (cases "Message_valid m")
    case False
    from markMessageAsRead_invalid [OF Some False, of u now] assms show ?thesis
      by simp
  next
    case True
    define m2 where "m2 = m\<lparr>msg_recipients := mark_first (msg_recipients m) u now,
        msg_updatedAt := now\<rparr>"
    from markMessageAsRead_found [OF Some True, of u now]
    have "markMessageAsRead msgs mid u now =
        Inr (map (\<lambda>d. if msg_id d = mid then m2 else d) msgs, m2)"
      unfolding m2_def .
    with assms have "m' = m2" and "msgs' = map (\<lambda>d. if msg_id d = mid then m2 else d) msgs"
      by simp_all
    then have "m' = m2" and "msgs' = map (\<lambda>d. if msg_id d = mid then m' else d) msgs"
      by simp_all
    with Some True show ?thesis unfolding m2_def by blast
  qed
qed

text \<open>The validity of the examples.\<close>

lemma ex_msg_valid: "Message_valid ex_msg"
  by (simp add: Message_valid_def ex_msg_def ex_recipient_def js_length_def utf16_units_def
      Sender_userType_enum_def Recipient_type_enum_def Message_type_enum_def
      Message_priority_enum_def)

lemma ex_msg_legacy_invalid: "\<not> Message_valid ex_msg_legacy"
  by (simp add: Message_valid_def ex_msg_legacy_def Message_type_enum_def)


text \<open>Marks touch only the read state of the entries of the acting user.\<close>

lemma touches_only_refl: "touches_only u r r"
  by (simp add: touches_only_def same_but_read_state_def)

lemma touches_only_mark:
  "rcp_userId r = Some u \<Longrightarrow> touches_only u r (r\<lparr>rcp_isRead := True, rcp_readAt := Some now\<rparr>)"
  by (simp add: touches_only_def same_but_read_state_def)

lemma list_all2_touches_refl: "list_all2 (touches_only u) rs rs"
  by (simp add: list_all2_same touches_only_refl)

lemma mark_first_touches: "list_all2 (touches_only u) rs (mark_first rs u now)"
  by (induction rs) (simp_all add: touches_only_refl touches_only_mark list_all2_touches_refl)

lemma mark_all_touches:
  "list_all2 (touches_only u) rs
     (map (\<lambda>r. if rcp_userId r = Some u
               then r\<lparr>rcp_isRead := True, rcp_readAt := Some now\<rparr> else r) rs)"
  by (induction rs) (simp_all add: touches_only_refl touches_only_mark)

lemma recipients_kept_refl: "recipients_kept u m m"
  by (simp add: recipients_kept_def list_all2_touches_refl)

lemma distinct_msg_id_eq:
  assumes "distinct (map msg_id msgs)" and "a \<in> set msgs" and "b \<in> set msgs"
    and "msg_id a = msg_id b"
  shows "a = b"
  using assms by (meson distinct_map inj_on_def)

lemma list_all2_replace:
  assumes "\<And>d. d \<in> set msgs \<Longrightarrow> P d (f d)"
  shows "list_all2 P msgs (map f msgs)"
  using assms by (simp add: list_all2_map2 list_all2_same)

text \<open>What the services do guarantee: a page holds only matching documents; the
  sender block of a created message is the user context's; a case listed for a
  panelist has an entry of that panelist and an active entry (not necessarily the
  same one); restricted keys with truthy values never reach a non-admin's update.\<close>

lemma paginate_subset: "paginate page limit xs = Inr ys \<Longrightarrow> set ys \<subseteq> set xs"
  by (auto simp: paginate_def Let_def split: if_splits dest: in_set_dropD in_set_takeD)

lemma set_sorted_by: "set (sorted_by key asc xs) = set xs"
  by (simp add: sorted_by_def)

lemma createMessage_NotFound_iff:
  "createMessage cases msgs messageData sender newId now = Inl NotFound \<longleftrightarrow>
     CaseRepository_findById cases (md_case messageData) False = None"
  by (auto simp: createMessage_def MessageRepository_create_def Let_def split: option.splits)

lemma createMessage_sender:
  assumes "createMessage cases msgs messageData sender newId now = Inr (msgs', m)"
  shows "msg_sender m = \<lparr>sender_userType = user_role sender, sender_userId = user_id sender,
                            sender_panelistId = user_panelistId sender,
                            sender_name = user_name sender\<rparr> \<and>
         msg_recipients m = md_recipients messageData \<and> msgs' = msgs @ [m]"
  using assms
  by (auto simp: createMessage_def MessageRepository_create_def Let_def
      split: option.splits if_splits)

lemma listCases_panelist_sound:
  assumes "user_role u = ''panelist''" and "user_panelistId u = Some p"
    and "listCases cases u page limit status type sortBy sortOrder = Inr res"
    and "c \<in> set (lr_cases res)"
  shows "list_ex (\<lambda>ap. ap_panelist ap = p) (aps_of c) \<and>
         list_ex (\<lambda>ap. ap_status ap = ''active'') (aps_of c)"
proof -
  let ?f = "listCases_filter u status type"
  from assms(3) obtain found where
    found: "findCasesWithPopulation cases ?f page limit sortBy (sortOrder = ''asc'') = Inr found"
    and res: "lr_cases res = found"
    by (auto simp: listCases_def Let_def split: sum.splits)
  from found have "set found \<subseteq> set (filter (matches ?f) cases)"
    unfolding findCasesWithPopulation_def
    using paginate_subset set_sorted_by by fastforce
  with assms(4) res have "matches ?f c" by auto
  with assms(1,2) show ?thesis
    by (simp add: matches_def listCases_filter_def)
qed

lemma strip_restricted_truthy:
  assumes "p_status updateData \<noteq> Some []" and "p_priority updateData \<noteq> Some []"
    and "p_assignedTo updateData \<noteq> Some None"
  shows "strip_restricted updateData =
           \<lparr>p_title = p_title updateData, p_status = None, p_assignedTo = None,
            p_assignedPanelists = None, p_priority = None\<rparr>"
  using assms by (cases updateData) (auto simp: strip_restricted_def split: option.splits)

lemma updateCase_restricted_kept:
  assumes "user_role user \<noteq> ''admin''"
    and "p_status updateData \<noteq> Some []" and "p_priority updateData \<noteq> Some []"
    and "p_assignedTo updateData \<noteq> Some None"
    and "CaseRepository_findById cases caseId False = Some existingCase"
    and "updateCase cases caseId updateData user = Inr (cases', Some c')"
  shows "case_status c' = case_status existingCase \<and>
         case_assignedTo c' = case_assignedTo existingCase \<and>
         case_assignedPanelists c' = case_assignedPanelists existingCase \<and>
         case_priority c' = case_priority existingCase"
proof -
  let ?p = "\<lparr>p_title = p_title updateData, p_status = None, p_assignedTo = None,
            p_assignedPanelists = None, p_priority = None\<rparr>"
  from assms(5) obtain raw where raw: "find (\<lambda>c. case_id c = caseId) cases = Some raw"
    and ex: "existingCase = hydrate raw"
    by (auto simp: CaseRepository_findById_def split: option.splits)
  from assms(6) have "CaseRepository_updateById cases caseId ?p = Inr (cases', Some c')"
    using assms(1,5) strip_restricted_truthy [OF assms(2,3,4)]
    by (auto simp: updateCase_def split: sum.splits)
  with raw have "c' = hydrate (apply_patch ?p raw)"
    by (auto simp: CaseRepository_updateById_def split: if_splits)
  then show ?thesis
    by (simp add: ex hydrate_def apply_patch_def)
qed





section \<open>The claims\<close>

subsection \<open>C1: users of an unlisted role\<close>

text \<open>
  C1 says that the access check denies every user whose role is none of admin,
  client and panelist. The checks test the three roles one after the other and end in
  \<^verbatim>\<open>return true\<close>: for the user of role guest below neither test applies, and both
  checks grant the access that their first line reserves for admins.
\<close>

theorem C1_unlisted_role_allowed:
  "user_role ex_guest \<noteq> ''admin'' \<and> user_role ex_guest \<noteq> ''client'' \<and>
   user_role ex_guest \<noteq> ''panelist'' \<and>
   CaseService_checkCaseAccess ex_case ex_guest = Inr True \<and>
   MessageService_checkCaseAccess ex_case ex_guest = Inr True"
  by (simp add: ex_guest_def CaseService_checkCaseAccess_def MessageService_checkCaseAccess_def)

subsection \<open>C2: who may create a message\<close>

text \<open>
  C2 says that message creation does not succeed for a sender who is neither an
  admin, nor the client who created the case, nor a panelist actively assigned to it.
  \<^verbatim>\<open>createMessage\<close> checks only that the case exists: the client 2 below did not create
  case 1, both access checks deny that client the case, and the message is created
  all the same, with the client as its sender.
\<close>

theorem C2_createMessage_by_outsider:
  "CaseRepository_findById [ex_case] (md_case ex_payload) False = Some ex_case \<and>
   CaseService_checkCaseAccess ex_case ex_outsider = Inl Forbidden \<and>
   MessageService_checkCaseAccess ex_case ex_outsider = Inl Forbidden \<and>
   createMessage [ex_case] [] ex_payload ex_outsider 2 100 =
     Inr ([\<lparr>msg_id = 2, msg_case = 1,
            msg_sender = \<lparr>sender_userType = ''client'', sender_userId = 2,
                          sender_panelistId = None, sender_name = ''Otto''\<rparr>,
            msg_recipients = [ex_recipient 3 False],
            msg_subject = None, msg_content = ''Let me in'', msg_messageType = ''general'',
            msg_priority = ''normal'', msg_isDeleted = False, msg_createdAt = 100,
            msg_updatedAt = 100\<rparr>],
          \<lparr>msg_id = 2, msg_case = 1,
            msg_sender = \<lparr>sender_userType = ''client'', sender_userId = 2,
                          sender_panelistId = None, sender_name = ''Otto''\<rparr>,
            msg_recipients = [ex_recipient 3 False],
            msg_subject = None, msg_content = ''Let me in'', msg_messageType = ''general'',
            msg_priority = ''normal'', msg_isDeleted = False, msg_createdAt = 100,
            msg_updatedAt = 100\<rparr>)"
proof -
  have f: "CaseRepository_findById [ex_case] (md_case ex_payload) False = Some ex_case"
    by (simp add: CaseRepository_findById_def hydrate_def ex_case_def ex_payload_def)
  have a: "CaseService_checkCaseAccess ex_case ex_outsider = Inl Forbidden"
    by (simp add: CaseService_checkCaseAccess_def ex_case_def ex_outsider_def)
  have b: "MessageService_checkCaseAccess ex_case ex_outsider = Inl Forbidden"
    by (simp add: MessageService_checkCaseAccess_def ex_case_def ex_outsider_def)
  have t: "js_trim ''Let me in'' = ''Let me in''"
    by (simp add: js_trim_def ws_encodings_def strip.simps)
  have c: "createMessage [ex_case] [] ex_payload ex_outsider 2 100 =
     Inr ([\<lparr>msg_id = 2, msg_case = 1,
            msg_sender = \<lparr>sender_userType = ''client'', sender_userId = 2,
                          sender_panelistId = None, sender_name = ''Otto''\<rparr>,
            msg_recipients = [ex_recipient 3 False],
            msg_subject = None, msg_content = ''Let me in'', msg_messageType = ''general'',
            msg_priority = ''normal'', msg_isDeleted = False, msg_createdAt = 100,
            msg_updatedAt = 100\<rparr>],
          \<lparr>msg_id = 2, msg_case = 1,
            msg_sender = \<lparr>sender_userType = ''client'', sender_userId = 2,
                          sender_panelistId = None, sender_name = ''Otto''\<rparr>,
            msg_recipients = [ex_recipient 3 False],
            msg_subject = None, msg_content = ''Let me in'', msg_messageType = ''general'',
            msg_priority = ''normal'', msg_isDeleted = False, msg_createdAt = 100,
            msg_updatedAt = 100\<rparr>)"
    unfolding createMessage_def f
    by (simp add: MessageRepository_create_def Message_valid_def Let_def t
        js_length_def utf16_units_def
        Sender_userType_enum_def Recipient_type_enum_def Message_type_enum_def
        Message_priority_enum_def ex_payload_def ex_outsider_def ex_recipient_def)
  from f a b c show ?thesis by (simp only: simp_thms)
qed

subsection \<open>C3: the cases a panelist lists\<close>

text \<open>
  C3 says that every case \<^verbatim>\<open>listCases\<close> returns to a panelist has an entry with that
  panelist's id and status active in the same entry. The two dotted keys of the filter
  are matched independently: on the case below panelist 11 holds only a removed entry
  and panelist 12 an active one; the access check denies panelist 11 the case, yet
  \<^verbatim>\<open>listCases\<close> (and \<^verbatim>\<open>findByPanelist\<close>) return it to that panelist.
\<close>

theorem C3_listCases_removed_panelist:
  "user_role ex_removed_panelist = ''panelist'' \<and>
   user_panelistId ex_removed_panelist = Some 11 \<and>
   some_active (aps_of ex_case) (Some 11) = Inr False \<and>
   CaseService_checkCaseAccess ex_case ex_removed_panelist = Inl Forbidden \<and>
   listCases [ex_case] ex_removed_panelist 1 10 None None case_createdAt ''desc'' =
     Inr \<lparr>lr_cases = [ex_case], lr_total = 1, lr_page = 1, lr_limit = 10, lr_pages = Some 1\<rparr> \<and>
   findByPanelist [ex_case] 11 1 10 = Inr [ex_case]"
proof -
  have m: "matches \<lparr>f_createdBy = None, f_ap_panelist = Some (Some 11),
                    f_ap_status = Some ''active'', f_status = None, f_type = None\<rparr> ex_case"
    by (simp add: matches_def aps_of_def ex_case_def)
  have fl: "listCases_filter ex_removed_panelist None None =
      \<lparr>f_createdBy = None, f_ap_panelist = Some (Some 11),
       f_ap_status = Some ''active'', f_status = None, f_type = None\<rparr>"
    by (simp add: listCases_filter_def truthy_str_def ex_removed_panelist_def)
  have l: "listCases [ex_case] ex_removed_panelist 1 10 None None case_createdAt ''desc'' =
     Inr \<lparr>lr_cases = [ex_case], lr_total = 1, lr_page = 1, lr_limit = 10, lr_pages = Some 1\<rparr>"
    unfolding listCases_def fl Let_def findCasesWithPopulation_def countCases_def
    by (simp add: m paginate_def sorted_by_def page_count_def)
  have fp: "findByPanelist [ex_case] 11 1 10 = Inr [ex_case]"
    unfolding findByPanelist_def by (simp add: m paginate_def sorted_by_def)
  have s: "some_active (aps_of ex_case) (Some 11) = Inr False"
    by (simp add: aps_of_def ex_case_def)
  have a: "CaseService_checkCaseAccess ex_case ex_removed_panelist = Inl Forbidden"
    by (simp add: CaseService_checkCaseAccess_def ex_case_def ex_removed_panelist_def)
  have r: "user_role ex_removed_panelist = ''panelist''"
    "user_panelistId ex_removed_panelist = Some 11"
    by (simp_all add: ex_removed_panelist_def)
  from r s a l fp show ?thesis by (simp only: simp_thms)
qed

subsection \<open>C4: the unread count\<close>

text \<open>
  C4 says that \<^verbatim>\<open>getUnreadCount(u)\<close> counts the messages in which the entry of \<open>u\<close> itself
  is unread, so that it is 0 once \<open>u\<close> has read everything. The unread query matches its
  two dotted keys independently: after user 3 has marked the one message as read, the
  entry of user 4 is still unread, and the message still counts, and is listed, as
  unread for user 3.
\<close>

theorem C4_unread_count_after_reading:
  "markMessageAsRead [ex_msg] 1 3 90 =
     Inr ([ex_msg\<lparr>msg_recipients := [ex_recipient 3 False\<lparr>rcp_isRead := True, rcp_readAt := Some 90\<rparr>,
                                       ex_recipient 4 False],
                  msg_updatedAt := 90\<rparr>],
          ex_msg\<lparr>msg_recipients := [ex_recipient 3 False\<lparr>rcp_isRead := True, rcp_readAt := Some 90\<rparr>,
                                      ex_recipient 4 False],
                 msg_updatedAt := 90\<rparr>) \<and>
   getUnreadCount
     [ex_msg\<lparr>msg_recipients := [ex_recipient 3 False\<lparr>rcp_isRead := True, rcp_readAt := Some 90\<rparr>,
                                 ex_recipient 4 False],
            msg_updatedAt := 90\<rparr>] 3 = 1 \<and>
   getUnreadMessages
     [ex_msg\<lparr>msg_recipients := [ex_recipient 3 False\<lparr>rcp_isRead := True, rcp_readAt := Some 90\<rparr>,
                                 ex_recipient 4 False],
            msg_updatedAt := 90\<rparr>] 3 1 20 =
     Inr ([ex_msg\<lparr>msg_recipients := [ex_recipient 3 False\<lparr>rcp_isRead := True, rcp_readAt := Some 90\<rparr>,
                                       ex_recipient 4 False],
                  msg_updatedAt := 90\<rparr>], 1)"
proof -
  define m1 where "m1 = ex_msg\<lparr>msg_recipients :=
    [ex_recipient 3 False\<lparr>rcp_isRead := True, rcp_readAt := Some 90\<rparr>, ex_recipient 4 False],
    msg_updatedAt := 90\<rparr>"
  have f: "MessageRepository_findById [ex_msg] 1 = Some ex_msg"
    by (simp add: MessageRepository_findById_def ex_msg_def)
  have first: "markMessageAsRead [ex_msg] 1 3 90 = Inr ([m1], m1)"
    unfolding markMessageAsRead_found [OF f ex_msg_valid] m1_def
    by (simp add: ex_msg_def ex_recipient_def)
  have q: "unread_query 3 m1"
    by (simp add: unread_query_def is_recipient_def m1_def ex_msg_def ex_recipient_def)
  have n: "getUnreadCount [m1] 3 = 1"
    by (simp add: getUnreadCount_def Message_getUnreadCount_def q)
  have l: "getUnreadMessages [m1] 3 1 20 = Inr ([m1], 1)"
    by (simp add: getUnreadMessages_def findUnreadByUser_def Message_getUnreadCount_def q
        paginate_def sorted_by_def)
  from first n l show ?thesis unfolding m1_def by (simp only: simp_thms)
qed

subsection \<open>C5: restricted fields in a non-admin update\<close>

text \<open>
  C5 says that an update by a non-admin leaves \<^verbatim>\<open>status\<close>, \<^verbatim>\<open>assignedTo\<close>,
  \<^verbatim>\<open>assignedPanelists\<close> and \<^verbatim>\<open>priority\<close> unchanged whatever the patch supplies. The
  stripping tests the value of each restricted key, so a falsy value is not stripped:
  the owning client's patch \<^verbatim>\<open>{assignedTo: null}\<close> passes through and unassigns the
  caseworker of the case.
\<close>

theorem C5_updateCase_unassign_by_client:
  "user_role ex_owner = ''client'' \<and>
   CaseRepository_findById [ex_case] 1 False = Some ex_case \<and>
   CaseService_checkCaseAccess ex_case ex_owner = Inr True \<and>
   case_assignedTo ex_case = Some 7 \<and>
   p_assignedTo ex_patch_unassign = Some None \<and>
   updateCase [ex_case] 1 ex_patch_unassign ex_owner =
     Inr ([ex_case\<lparr>case_assignedTo := None\<rparr>], Some (ex_case\<lparr>case_assignedTo := None\<rparr>))"
proof -
  have r: "user_role ex_owner = ''client''" by (simp add: ex_owner_def)
  have f: "CaseRepository_findById [ex_case] 1 False = Some ex_case"
    by (simp add: CaseRepository_findById_def hydrate_def ex_case_def)
  have a: "CaseService_checkCaseAccess ex_case ex_owner = Inr True"
    by (simp add: CaseService_checkCaseAccess_def ex_case_def ex_owner_def)
  have t: "case_assignedTo ex_case = Some 7" by (simp add: ex_case_def)
  have p: "p_assignedTo ex_patch_unassign = Some None" by (simp add: ex_patch_unassign_def)
  have s: "strip_restricted ex_patch_unassign = ex_patch_unassign"
    by (simp add: strip_restricted_def ex_patch_unassign_def)
  have v: "patch_valid ex_patch_unassign"
    by (simp add: patch_valid_def ex_patch_unassign_def)
  have ap: "apply_patch ex_patch_unassign ex_case = ex_case\<lparr>case_assignedTo := None\<rparr>"
    by (simp add: apply_patch_def ex_patch_unassign_def ex_case_def)
  have h: "hydrate (ex_case\<lparr>case_assignedTo := None\<rparr>) = ex_case\<lparr>case_assignedTo := None\<rparr>"
    by (simp add: hydrate_def ex_case_def)
  have i: "case_id ex_case = 1" by (simp add: ex_case_def)
  have u: "updateCase [ex_case] 1 ex_patch_unassign ex_owner =
     Inr ([ex_case\<lparr>case_assignedTo := None\<rparr>], Some (ex_case\<lparr>case_assignedTo := None\<rparr>))"
    unfolding updateCase_def f
    by (simp add: a r s v ap h i CaseRepository_updateById_def)
  from r f a t p u show ?thesis by (simp only: simp_thms)
qed

subsection \<open>C6: marking a message as read twice\<close>

text \<open>
  C6, as stated, says that a second \<^verbatim>\<open>markAsRead\<close> of the same message by the same user
  leaves the stored message as the first call left it, performing no mutation. The
  method saves the document in every case, and the save hook stamps \<^verbatim>\<open>updatedAt\<close>:
  the collection stored after marks at the times 90 and 95 is neither the one stored
  by a single mark at 90 nor the one stored by a single mark at 95.
\<close>

theorem C6_counterexample:
  "markMessageAsRead [ex_msg] 1 3 90 =
     Inr ([ex_msg\<lparr>msg_recipients := [ex_recipient 3 False\<lparr>rcp_isRead := True, rcp_readAt := Some 90\<rparr>,
                                       ex_recipient 4 False],
                  msg_updatedAt := 90\<rparr>],
          ex_msg\<lparr>msg_recipients := [ex_recipient 3 False\<lparr>rcp_isRead := True, rcp_readAt := Some 90\<rparr>,
                                      ex_recipient 4 False],
                 msg_updatedAt := 90\<rparr>) \<and>
   markMessageAsRead
     [ex_msg\<lparr>msg_recipients := [ex_recipient 3 False\<lparr>rcp_isRead := True, rcp_readAt := Some 90\<rparr>,
                                 ex_recipient 4 False],
            msg_updatedAt := 90\<rparr>] 1 3 95 =
     Inr ([ex_msg\<lparr>msg_recipients := [ex_recipient 3 False\<lparr>rcp_isRead := True, rcp_readAt := Some 90\<rparr>,
                                       ex_recipient 4 False],
                  msg_updatedAt := 95\<rparr>],
          ex_msg\<lparr>msg_recipients := [ex_recipient 3 False\<lparr>rcp_isRead := True, rcp_readAt := Some 90\<rparr>,
                                      ex_recipient 4 False],
                 msg_updatedAt := 95\<rparr>) \<and>
   markMessageAsRead [ex_msg] 1 3 95 =
     Inr ([ex_msg\<lparr>msg_recipients := [ex_recipient 3 False\<lparr>rcp_isRead := True, rcp_readAt := Some 95\<rparr>,
                                       ex_recipient 4 False],
                  msg_updatedAt := 95\<rparr>],
          ex_msg\<lparr>msg_recipients := [ex_recipient 3 False\<lparr>rcp_isRead := True, rcp_readAt := Some 95\<rparr>,
                                      ex_recipient 4 False],
                 msg_updatedAt := 95\<rparr>) \<and>
   [ex_msg\<lparr>msg_recipients := [ex_recipient 3 False\<lparr>rcp_isRead := True, rcp_readAt := Some 90\<rparr>,
                               ex_recipient 4 False],
          msg_updatedAt := 95\<rparr>]
     \<noteq> [ex_msg\<lparr>msg_recipients := [ex_recipient 3 False\<lparr>rcp_isRead := True, rcp_readAt := Some 90\<rparr>,
                                    ex_recipient 4 False],
               msg_updatedAt := 90\<rparr>] \<and>
   [ex_msg\<lparr>msg_recipients := [ex_recipient 3 False\<lparr>rcp_isRead := True, rcp_readAt := Some 90\<rparr>,
                               ex_recipient 4 False],
          msg_updatedAt := 95\<rparr>]
     \<noteq> [ex_msg\<lparr>msg_recipients := [ex_recipient 3 False\<lparr>rcp_isRead := True, rcp_readAt := Some 95\<rparr>,
                                    ex_recipient 4 False],
               msg_updatedAt := 95\<rparr>]"
proof -
  define m1 where "m1 = ex_msg\<lparr>msg_recipients :=
    [ex_recipient 3 False\<lparr>rcp_isRead := True, rcp_readAt := Some 90\<rparr>, ex_recipient 4 False],
    msg_updatedAt := 90\<rparr>"
  have f: "MessageRepository_findById [ex_msg] 1 = Some ex_msg"
    by (simp add: MessageRepository_findById_def ex_msg_def)
  have f1: "MessageRepository_findById [m1] 1 = Some m1"
    by (simp add: MessageRepository_findById_def m1_def ex_msg_def)
  have v1: "Message_valid m1"
    using ex_msg_valid unfolding m1_def
    by (simp add: Message_valid_def ex_msg_def ex_recipient_def Recipient_type_enum_def)
  have a: "markMessageAsRead [ex_msg] 1 3 90 = Inr ([m1], m1)"
    unfolding markMessageAsRead_found [OF f ex_msg_valid] m1_def
    by (simp add: ex_msg_def ex_recipient_def)
  have b: "markMessageAsRead [m1] 1 3 95 =
      Inr ([m1\<lparr>msg_updatedAt := 95\<rparr>], m1\<lparr>msg_updatedAt := 95\<rparr>)"
    unfolding markMessageAsRead_found [OF f1 v1]
    by (simp add: m1_def ex_msg_def ex_recipient_def)
  have c: "markMessageAsRead [ex_msg] 1 3 95 =
     Inr ([ex_msg\<lparr>msg_recipients := [ex_recipient 3 False\<lparr>rcp_isRead := True, rcp_readAt := Some 95\<rparr>,
                                       ex_recipient 4 False],
                  msg_updatedAt := 95\<rparr>],
          ex_msg\<lparr>msg_recipients := [ex_recipient 3 False\<lparr>rcp_isRead := True, rcp_readAt := Some 95\<rparr>,
                                      ex_recipient 4 False],
                 msg_updatedAt := 95\<rparr>)"
    unfolding markMessageAsRead_found [OF f ex_msg_valid]
    by (simp add: ex_msg_def ex_recipient_def)
  have d: "[m1\<lparr>msg_updatedAt := 95\<rparr>] \<noteq> [m1]"
    by (simp add: m1_def ex_msg_def)
  have e: "[m1\<lparr>msg_updatedAt := 95\<rparr>] \<noteq>
     [ex_msg\<lparr>msg_recipients := [ex_recipient 3 False\<lparr>rcp_isRead := True, rcp_readAt := Some 95\<rparr>,
                                  ex_recipient 4 False],
             msg_updatedAt := 95\<rparr>]"
    by (simp add: m1_def ex_msg_def ex_recipient_def)
  from a b c d e show ?thesis unfolding m1_def by simp
qed

text \<open>
  C6 (amended): when \<^verbatim>\<open>markAsRead(m, u)\<close> has succeeded, a second call for the same
  message and user succeeds too, and it leaves the collection and the returned message
  as the first call left them except for \<^verbatim>\<open>updatedAt\<close> of that message, which is
  stamped with the time of the second call: every recipients entry keeps its
  \<^verbatim>\<open>isRead\<close> and \<^verbatim>\<open>readAt\<close>. When the first call fails, so does the second, with the
  same error.
\<close>

theorem C6_second_markAsRead:
  "(markMessageAsRead msgs mid u t1 = Inr (msgs1, m1) \<longrightarrow>
      markMessageAsRead msgs1 mid u t2 = Inr (restamp mid t2 msgs1, m1\<lparr>msg_updatedAt := t2\<rparr>)) \<and>
   (markMessageAsRead msgs mid u t1 = Inl e \<longrightarrow> markMessageAsRead msgs mid u t2 = Inl e)"
proof (intro conjI impI)
  assume first: "markMessageAsRead msgs mid u t1 = Inr (msgs1, m1)"
  from markMessageAsRead_Inr [OF this]
  obtain m where m: "MessageRepository_findById msgs mid = Some m"
    and vm: "Message_valid m"
    and m1: "m1 = m\<lparr>msg_recipients := mark_first (msg_recipients m) u t1, msg_updatedAt := t1\<rparr>"
    and msgs1: "msgs1 = map (\<lambda>d. if msg_id d = mid then m1 else d) msgs"
    by blast
  have idm: "msg_id m = mid" using m by (rule findById_msg_id)
  have idm1: "msg_id m1 = mid" unfolding m1 using idm by simp
  have vm1: "Message_valid m1"
    unfolding m1 Message_valid_stamp Message_valid_mark by (rule vm)
  have "find (\<lambda>m. msg_id m = mid) msgs = Some m"
    using m by (simp only: MessageRepository_findById_def)
  from find_replace_msg [OF this idm1]
  have found1: "MessageRepository_findById msgs1 mid = Some m1"
    by (simp only: MessageRepository_findById_def msgs1)
  have again: "m1\<lparr>msg_recipients := mark_first (msg_recipients m1) u t2, msg_updatedAt := t2\<rparr>
                 = m1\<lparr>msg_updatedAt := t2\<rparr>"
    by (simp add: m1 mark_first_idem)
  have store: "map (\<lambda>d. if msg_id d = mid then m1\<lparr>msg_updatedAt := t2\<rparr> else d) msgs1
                 = restamp mid t2 msgs1"
    unfolding msgs1 restamp_def using idm1 by simp
  show "markMessageAsRead msgs1 mid u t2 = Inr (restamp mid t2 msgs1, m1\<lparr>msg_updatedAt := t2\<rparr>)"
    unfolding markMessageAsRead_found [OF found1 vm1] again store ..
next
  assume first: "markMessageAsRead msgs mid u t1 = Inl e"
  show "markMessageAsRead msgs mid u t2 = Inl e"
  proof (cases "MessageRepository_findById msgs mid")
    case None
    with first show ?thesis by (simp add: markMessageAsRead_absent)
  next
    case (Some m)
    show ?thesis
    proof (cases "Message_valid m")
      case True
      from markMessageAsRead_found [OF Some True, of u t1] first show ?thesis by simp
    next
      case False
      from markMessageAsRead_invalid [OF Some False, of u t1] first
        markMessageAsRead_invalid [OF Some False, of u t2]
      show ?thesis by simp
    qed
  qed
qed

theorem C6_second_markAsRead_witness:
  "markMessageAsRead [ex_msg] 1 3 90 =
     Inr ([ex_msg\<lparr>msg_recipients := [ex_recipient 3 False\<lparr>rcp_isRead := True, rcp_readAt := Some 90\<rparr>,
                                       ex_recipient 4 False],
                  msg_updatedAt := 90\<rparr>],
          ex_msg\<lparr>msg_recipients := [ex_recipient 3 False\<lparr>rcp_isRead := True, rcp_readAt := Some 90\<rparr>,
                                      ex_recipient 4 False],
                 msg_updatedAt := 90\<rparr>) \<and>
   markMessageAsRead
     [ex_msg\<lparr>msg_recipients := [ex_recipient 3 False\<lparr>rcp_isRead := True, rcp_readAt := Some 90\<rparr>,
                                 ex_recipient 4 False],
            msg_updatedAt := 90\<rparr>] 1 3 95 =
     Inr ([ex_msg\<lparr>msg_recipients := [ex_recipient 3 False\<lparr>rcp_isRead := True, rcp_readAt := Some 90\<rparr>,
                                       ex_recipient 4 False],
                  msg_updatedAt := 95\<rparr>],
          ex_msg\<lparr>msg_recipients := [ex_recipient 3 False\<lparr>rcp_isRead := True, rcp_readAt := Some 90\<rparr>,
                                      ex_recipient 4 False],
                 msg_updatedAt := 95\<rparr>)"
proof -
  define m1 where "m1 = ex_msg\<lparr>msg_recipients :=
    [ex_recipient 3 False\<lparr>rcp_isRead := True, rcp_readAt := Some 90\<rparr>, ex_recipient 4 False],
    msg_updatedAt := 90\<rparr>"
  have f: "MessageRepository_findById [ex_msg] 1 = Some ex_msg"
    by (simp add: MessageRepository_findById_def ex_msg_def)
  have first: "markMessageAsRead [ex_msg] 1 3 90 = Inr ([m1], m1)"
    unfolding markMessageAsRead_found [OF f ex_msg_valid] m1_def
    by (simp add: ex_msg_def ex_recipient_def)
  from C6_second_markAsRead [of "[ex_msg]" 1 3 90 "[m1]" m1 95] first
  have "markMessageAsRead [m1] 1 3 95 = Inr (restamp 1 95 [m1], m1\<lparr>msg_updatedAt := 95\<rparr>)"
    by blast
  moreover have "restamp 1 95 [m1] = [m1\<lparr>msg_updatedAt := 95\<rparr>]"
    by (simp add: restamp_def m1_def ex_msg_def)
  ultimately show ?thesis using first unfolding m1_def by simp
qed

subsection \<open>C7: NotFound and the no-op of markMessageAsRead\<close>

text \<open>
  C7, as stated, says that for an existing message without a recipients entry of the
  user the operation returns the message unchanged, as a success. The first message
  below has no entry for user 9, and the call does not return it (nor store it)
  unchanged: \<^verbatim>\<open>updatedAt\<close> has moved. The second message has no entry for user 9
  either, and the call is no success: the save validates the stored message, whose
  type is outside the enum, and throws the validation error.
\<close>

theorem C7_counterexample:
  "MessageRepository_findById [ex_msg] 1 = Some ex_msg \<and> \<not> is_recipient 9 ex_msg \<and>
   markMessageAsRead [ex_msg] 1 9 90 \<noteq> Inr ([ex_msg], ex_msg) \<and>
   MessageRepository_findById [ex_msg_legacy] 2 = Some ex_msg_legacy \<and>
   \<not> is_recipient 9 ex_msg_legacy \<and>
   markMessageAsRead [ex_msg_legacy] 2 9 90 = Inl ValidationError"
proof -
  have f: "MessageRepository_findById [ex_msg] 1 = Some ex_msg"
    by (simp add: MessageRepository_findById_def ex_msg_def)
  have n: "\<not> is_recipient 9 ex_msg"
    by (simp add: is_recipient_def ex_msg_def ex_recipient_def)
  have a: "markMessageAsRead [ex_msg] 1 9 90 \<noteq> Inr ([ex_msg], ex_msg)"
    unfolding markMessageAsRead_found [OF f ex_msg_valid]
    by (simp add: ex_msg_def)
  have g: "MessageRepository_findById [ex_msg_legacy] 2 = Some ex_msg_legacy"
    by (simp add: MessageRepository_findById_def ex_msg_legacy_def)
  have k: "\<not> is_recipient 9 ex_msg_legacy"
    by (simp add: is_recipient_def ex_msg_legacy_def ex_msg_def ex_recipient_def)
  have b: "markMessageAsRead [ex_msg_legacy] 2 9 90 = Inl ValidationError"
    using g ex_msg_legacy_invalid by (rule markMessageAsRead_invalid)
  from f n a g k b show ?thesis by (simp only: simp_thms)
qed

text \<open>
  C7 (amended): \<^verbatim>\<open>markMessageAsRead\<close> raises NotFound if and only if no message of the
  given id exists. If the message exists, passes the validation of the Message schema
  and has no recipients entry of the given user, the call succeeds and returns the
  message with its recipients and every other field unchanged except \<^verbatim>\<open>updatedAt\<close>,
  which the save stamps with the current time; in a collection with unique ids
  nothing else changes in the store. If the message exists and fails the validation,
  the call raises the validation error of the save.
\<close>

theorem C7_markMessageAsRead:
  "(markMessageAsRead msgs mid u now = Inl NotFound \<longleftrightarrow>
      MessageRepository_findById msgs mid = None) \<and>
   (MessageRepository_findById msgs mid = Some m \<longrightarrow> \<not> is_recipient u m \<longrightarrow>
    Message_valid m \<longrightarrow> distinct (map msg_id msgs) \<longrightarrow>
      markMessageAsRead msgs mid u now =
        Inr (restamp mid now msgs, m\<lparr>msg_updatedAt := now\<rparr>)) \<and>
   (MessageRepository_findById msgs mid = Some m \<longrightarrow> \<not> Message_valid m \<longrightarrow>
      markMessageAsRead msgs mid u now = Inl ValidationError)"
proof (intro conjI impI)
  show "markMessageAsRead msgs mid u now = Inl NotFound \<longleftrightarrow>
          MessageRepository_findById msgs mid = None"
  proof (cases "MessageRepository_findById msgs mid")
    case None
    then show ?thesis by (simp add: markMessageAsRead_absent)
  next
    case (Some m')
    show ?thesis
    proof (cases "Message_valid m'")
      case True
      from markMessageAsRead_found [OF Some True, of u now] Some show ?thesis by simp
    next
      case False
      from markMessageAsRead_invalid [OF Some False, of u now] Some show ?thesis by simp
    qed
  qed
next
  assume m: "MessageRepository_findById msgs mid = Some m" and no: "\<not> is_recipient u m"
    and v: "Message_valid m" and d: "distinct (map msg_id msgs)"
  have idm: "msg_id m = mid" using m by (rule findById_msg_id)
  have mem: "m \<in> set msgs" using m by (rule findById_msg_mem)
  from no have same: "mark_first (msg_recipients m) u now = msg_recipients m"
    by (simp add: is_recipient_def mark_first_absent)
  have "(if msg_id x = mid then m\<lparr>msg_updatedAt := now\<rparr> else x) =
        (if msg_id x = mid then x\<lparr>msg_updatedAt := now\<rparr> else x)" if x: "x \<in> set msgs" for x
  proof (cases "msg_id x = mid")
    case True
    with idm have "msg_id x = msg_id m" by simp
    from distinct_msg_id_eq [OF d x mem this] show ?thesis by simp
  next
    case False
    then show ?thesis by simp
  qed
  then have store: "map (\<lambda>x. if msg_id x = mid then m\<lparr>msg_updatedAt := now\<rparr> else x) msgs =
      restamp mid now msgs"
    unfolding restamp_def by (simp cong: map_cong)
  have eq: "m\<lparr>msg_recipients := msg_recipients m, msg_updatedAt := now\<rparr> =
      m\<lparr>msg_updatedAt := now\<rparr>"
    by simp
  show "markMessageAsRead msgs mid u now = Inr (restamp mid now msgs, m\<lparr>msg_updatedAt := now\<rparr>)"
    unfolding markMessageAsRead_found [OF m v] same eq store ..
next
  assume "MessageRepository_findById msgs mid = Some m" and "\<not> Message_valid m"
  then show "markMessageAsRead msgs mid u now = Inl ValidationError"
    by (rule markMessageAsRead_invalid)
qed

theorem C7_markMessageAsRead_witness:
  "MessageRepository_findById [ex_msg] 1 = Some ex_msg \<and> \<not> is_recipient 9 ex_msg \<and>
   Message_valid ex_msg \<and> distinct (map msg_id [ex_msg]) \<and>
   markMessageAsRead [ex_msg] 1 9 90 =
     Inr ([ex_msg\<lparr>msg_updatedAt := 90\<rparr>], ex_msg\<lparr>msg_updatedAt := 90\<rparr>) \<and>
   MessageRepository_findById [ex_msg] 5 = None \<and>
   markMessageAsRead [ex_msg] 5 9 90 = Inl NotFound \<and>
   MessageRepository_findById [ex_msg_legacy] 2 = Some ex_msg_legacy \<and>
   \<not> Message_valid ex_msg_legacy \<and>
   markMessageAsRead [ex_msg_legacy] 2 9 90 = Inl ValidationError"
proof -
  have f: "MessageRepository_findById [ex_msg] 1 = Some ex_msg"
    by (simp add: MessageRepository_findById_def ex_msg_def)
  have n: "\<not> is_recipient 9 ex_msg"
    by (simp add: is_recipient_def ex_msg_def ex_recipient_def)
  have d: "distinct (map msg_id [ex_msg])" by simp
  have g: "MessageRepository_findById [ex_msg] 5 = None"
    by (simp add: MessageRepository_findById_def ex_msg_def)
  have h: "MessageRepository_findById [ex_msg_legacy] 2 = Some ex_msg_legacy"
    by (simp add: MessageRepository_findById_def ex_msg_legacy_def)
  have s: "restamp 1 90 [ex_msg] = [ex_msg\<lparr>msg_updatedAt := 90\<rparr>]"
    by (simp add: restamp_def ex_msg_def)
  from C7_markMessageAsRead [of "[ex_msg]" 1 9 90 ex_msg] f n ex_msg_valid d
  have a: "markMessageAsRead [ex_msg] 1 9 90 =
     Inr (restamp 1 90 [ex_msg], ex_msg\<lparr>msg_updatedAt := 90\<rparr>)"
    by blast
  from C7_markMessageAsRead [of "[ex_msg]" 5 9 90 ex_msg] g
  have b: "markMessageAsRead [ex_msg] 5 9 90 = Inl NotFound"
    by blast
  from C7_markMessageAsRead [of "[ex_msg_legacy]" 2 9 90 ex_msg_legacy] h ex_msg_legacy_invalid
  have c: "markMessageAsRead [ex_msg_legacy] 2 9 90 = Inl ValidationError"
    by blast
  from a b c f n d g h s ex_msg_valid ex_msg_legacy_invalid show ?thesis by simp
qed

subsection \<open>C8: assignPanelists\<close>




subsection \<open>C9: the recipients list after creation\<close>

text \<open>
  C9: in a collection with unique ids, \<^verbatim>\<open>markMessageAsRead\<close>, \<^verbatim>\<open>bulkMarkAsRead\<close> and the
  soft deletion keep every message's recipients list entry by entry: no entry is
  added or removed. The two read marks change at most \<^verbatim>\<open>isRead\<close> and \<^verbatim>\<open>readAt\<close>, and only
  in entries whose \<^verbatim>\<open>userId\<close> is the acting user's, so every other recipient's entry is
  what it was; the soft deletion changes no entry at all.
\<close>

theorem C9_recipients_membership:
  assumes "distinct (map msg_id msgs)"
  shows "(markMessageAsRead msgs mid u now = Inr (msgs1, m1) \<longrightarrow>
            list_all2 (recipients_kept u) msgs msgs1) \<and>
         list_all2 (recipients_kept u) msgs (bulkMarkAsRead msgs ids u now) \<and>
         (deleteMessage msgs mid actor = Inr (msgs2, r) \<longrightarrow>
            list_all2 recipients_same msgs msgs2)"
proof (intro conjI impI)
  assume "markMessageAsRead msgs mid u now = Inr (msgs1, m1)"
  from markMessageAsRead_Inr [OF this]
  obtain m where m: "MessageRepository_findById msgs mid = Some m"
    and "Message_valid m"
    and m1: "m1 = m\<lparr>msg_recipients := mark_first (msg_recipients m) u now, msg_updatedAt := now\<rparr>"
    and msgs1: "msgs1 = map (\<lambda>d. if msg_id d = mid then m1 else d) msgs"
    by blast
  have idm: "msg_id m = mid" using m by (rule findById_msg_id)
  have mem: "m \<in> set msgs" using m by (rule findById_msg_mem)
  have kept: "recipients_kept u m m1"
    unfolding m1 by (simp add: recipients_kept_def mark_first_touches)
  have "recipients_kept u d (if msg_id d = mid then m1 else d)" if d: "d \<in> set msgs" for d
  proof (cases "msg_id d = mid")
    case True
    with idm have "msg_id d = msg_id m" by simp
    from distinct_msg_id_eq [OF assms d mem this] have "d = m" .
    with True kept show ?thesis by simp
  next
    case False
    then show ?thesis by (simp add: recipients_kept_refl)
  qed
  then show "list_all2 (recipients_kept u) msgs msgs1"
    unfolding msgs1 by (rule list_all2_replace)
next
  show "list_all2 (recipients_kept u) msgs (bulkMarkAsRead msgs ids u now)"
    unfolding bulkMarkAsRead_def
    by (rule list_all2_replace) (simp add: recipients_kept_def mark_all_touches list_all2_touches_refl)
next
  assume del: "deleteMessage msgs mid actor = Inr (msgs2, r)"
  then have "msgs2 = map (\<lambda>m. if msg_id m = mid then m\<lparr>msg_isDeleted := True\<rparr> else m) msgs"
    by (auto simp: deleteMessage_def MessageRepository_deleteById_def
        split: option.splits if_splits)
  then show "list_all2 recipients_same msgs msgs2"
    by (simp add: list_all2_map2 list_all2_same recipients_same_def)
qed

theorem C9_recipients_membership_witness:
  "distinct (map msg_id [ex_msg]) \<and>
   markMessageAsRead [ex_msg] 1 3 90 =
     Inr ([ex_msg\<lparr>msg_recipients := [ex_recipient 3 False\<lparr>rcp_isRead := True, rcp_readAt := Some 90\<rparr>,
                                       ex_recipient 4 False],
                  msg_updatedAt := 90\<rparr>],
          ex_msg\<lparr>msg_recipients := [ex_recipient 3 False\<lparr>rcp_isRead := True, rcp_readAt := Some 90\<rparr>,
                                      ex_recipient 4 False],
                 msg_updatedAt := 90\<rparr>) \<and>
   list_all2 (recipients_kept 3) [ex_msg]
     [ex_msg\<lparr>msg_recipients := [ex_recipient 3 False\<lparr>rcp_isRead := True, rcp_readAt := Some 90\<rparr>,
                                 ex_recipient 4 False],
            msg_updatedAt := 90\<rparr>] \<and>
   list_all2 (recipients_kept 3) [ex_msg] (bulkMarkAsRead [ex_msg] [1] 3 90) \<and>
   deleteMessage [ex_msg] 1 ex_owner =
     Inr ([ex_msg\<lparr>msg_isDeleted := True\<rparr>], Some (ex_msg\<lparr>msg_isDeleted := True\<rparr>)) \<and>
   list_all2 recipients_same [ex_msg] [ex_msg\<lparr>msg_isDeleted := True\<rparr>]"
proof -
  define m1 where "m1 = ex_msg\<lparr>msg_recipients :=
    [ex_recipient 3 False\<lparr>rcp_isRead := True, rcp_readAt := Some 90\<rparr>, ex_recipient 4 False],
    msg_updatedAt := 90\<rparr>"
  have d: "distinct (map msg_id [ex_msg])" by simp
  have f: "MessageRepository_findById [ex_msg] 1 = Some ex_msg"
    by (simp add: MessageRepository_findById_def ex_msg_def)
  have first: "markMessageAsRead [ex_msg] 1 3 90 = Inr ([m1], m1)"
    unfolding markMessageAsRead_found [OF f ex_msg_valid] m1_def
    by (simp add: ex_msg_def ex_recipient_def)
  have del: "deleteMessage [ex_msg] 1 ex_owner =
     Inr ([ex_msg\<lparr>msg_isDeleted := True\<rparr>], Some (ex_msg\<lparr>msg_isDeleted := True\<rparr>))"
    unfolding deleteMessage_def f
    by (simp add: MessageRepository_deleteById_def ex_owner_def ex_msg_def)
  note inst = C9_recipients_membership [OF d, of 1 3 90 "[m1]" m1 "[1]" ex_owner
      "[ex_msg\<lparr>msg_isDeleted := True\<rparr>]" "Some (ex_msg\<lparr>msg_isDeleted := True\<rparr>)"]
  from inst first have a: "list_all2 (recipients_kept 3) [ex_msg] [m1]" by blast
  from inst have b: "list_all2 (recipients_kept 3) [ex_msg] (bulkMarkAsRead [ex_msg] [1] 3 90)"
    by blast
  from inst del have c: "list_all2 recipients_same [ex_msg] [ex_msg\<lparr>msg_isDeleted := True\<rparr>]"
    by blast
  from d first a b del c show ?thesis unfolding m1_def by blast
qed

subsection \<open>C10: a panelist context without a panelist id\<close>

text \<open>
  C10, as stated, says that the check fails with a TypeError for every user of role
  panelist without a panelist id. On a case whose \<^verbatim>\<open>assignedPanelists\<close> is empty the
  callback that reads the id never runs, and both checks end in the 403 error.
\<close>

theorem C10_counterexample:
  "user_role ex_panelist_noid = ''panelist'' \<and> user_panelistId ex_panelist_noid = None \<and>
   CaseService_checkCaseAccess ex_case_nopanel ex_panelist_noid = Inl Forbidden \<and>
   MessageService_checkCaseAccess ex_case_nopanel ex_panelist_noid = Inl Forbidden"
  by (simp add: ex_panelist_noid_def ex_case_nopanel_def CaseService_checkCaseAccess_def
      MessageService_checkCaseAccess_def)

text \<open>
  C10 (amended): for a user of role panelist without a panelist id the check never
  allows. It fails with a TypeError exactly when the case has at least one
  \<^verbatim>\<open>assignedPanelists\<close> entry and, in \<^verbatim>\<open>CaseService\<close> only, when the array is absent; on
  an empty array, and in \<^verbatim>\<open>MessageService\<close> on an absent one, it ends in the 403 error.
\<close>

theorem C10_panelist_without_id:
  assumes "user_role u = ''panelist''" and "user_panelistId u = None"
  shows "CaseService_checkCaseAccess c u =
           (if case_assignedPanelists c = Some [] then Inl Forbidden else Inl TypeError) \<and>
         MessageService_checkCaseAccess c u =
           (if case_assignedPanelists c = None \<or> case_assignedPanelists c = Some []
            then Inl Forbidden else Inl TypeError)"
  using assms
  by (auto simp: CaseService_checkCaseAccess_def MessageService_checkCaseAccess_def
      some_active_no_id split: option.splits)

theorem C10_panelist_without_id_witness:
  "user_role ex_panelist_noid = ''panelist'' \<and> user_panelistId ex_panelist_noid = None \<and>
   CaseService_checkCaseAccess ex_case ex_panelist_noid = Inl TypeError \<and>
   MessageService_checkCaseAccess ex_case ex_panelist_noid = Inl TypeError"
proof -
  have r: "user_role ex_panelist_noid = ''panelist''" "user_panelistId ex_panelist_noid = None"
    by (simp_all add: ex_panelist_noid_def)
  have c: "case_assignedPanelists ex_case \<noteq> Some []" "case_assignedPanelists ex_case \<noteq> None"
    by (simp_all add: ex_case_def)
  from C10_panelist_without_id [OF r, of ex_case] r c show ?thesis by simp
qed

end
